theory Spec2Isabelle
  imports Main
begin

section \<open>The database tables the settings routes read and write\<close>

text \<open>
  The routes under \<open>app/routes/settings+\<close> talk to the database through the ORM client.
  Each table is a list of rows in insertion order; a request handler takes the database
  and returns its outcome together with the database it leaves behind. Times are seconds
  since the epoch. The schema file is not among the sources: the columns of a verification
  are those of the data model (section 3 of the specification), the other tables have the
  columns the routes select or filter on.
\<close>

datatype algorithm = Simple_random | Time_based string

record verification =
  v_id :: string
  v_createdAt :: int
  v_type :: string
  v_target :: string
  v_secret :: string
  v_algorithm :: algorithm
  v_digits :: nat
  v_period :: int
  v_charSet :: string
  v_expiresAt :: "int option"

record session =
  s_id :: string
  s_userId :: string
  s_expirationDate :: int

record connection =
  c_id :: string
  c_providerName :: string
  c_providerId :: string
  c_userId :: string

record password =
  p_userId :: string
  p_hash :: string

record user =
  u_id :: string
  u_email :: string
  u_username :: string

record db =
  users :: "user list"
  passwords :: "password list"
  connections :: "connection list"
  sessions :: "session list"
  verifications :: "verification list"

subsection \<open>Requests and responses\<close>

text \<open>
  \<open>r_userId\<close> is what \<open>requireUserId(request)\<close> resolves to (\<open>None\<close>: it throws the
  redirect to the login page); \<open>r_sessionId\<close> is what the auth cookie session holds under
  \<open>sessionKey\<close>; \<open>r_formData\<close> is the submitted form, first value of a name first.
\<close>

record request =
  r_userId :: "string option"
  r_sessionId :: "string option"
  r_formData :: "(string \<times> string) list"

datatype issue_code =
  Invalid_discriminator | Required | Invalid_value | Too_small | Too_big | Custom string

datatype issue = Issue string issue_code

text \<open>
  \<open>Reply issues\<close> is \<open>{ result: submission.reply() }\<close> of a submission whose status is
  "error": the issues of the schema, by field. \<open>Intent_reply\<close> is that object for a
  submission that carries a form-control intent: its content is the form library's.
\<close>

datatype body =
    Reply "issue list"
  | Intent_reply
  | Form_errors "string list"
  | Is2FAEnabled bool
  | Status string

text \<open>
  \<open>Redirect_toast url type title description\<close> is \<open>redirectWithToast\<close>;
  \<open>Redirect_verify type target email\<close> is the redirect to the \<open>redirectTo\<close> URL that
  \<open>prepareVerification\<close> returned for (type, target), with the new email address committed
  to the verify session cookie.
\<close>

datatype response =
    Json body nat
  | Redirect string
  | Redirect_toast string string string string
  | Redirect_verify string string string

datatype prisma_error = P2002 | P2025

text \<open>\<open>Form_thrown\<close>: the form library threw while it read the form.\<close>

datatype thrown =
    Login_redirect
  | Response_thrown string nat
  | Prisma_thrown prisma_error
  | Form_thrown

type_synonym outcome = "thrown + response"

definition formData_get :: "(string \<times> string) list \<Rightarrow> string \<Rightarrow> string option" where
  "formData_get form name = map_of form name"

subsection \<open>Reading and validating a submitted form\<close>

text \<open>
  \<open>parseWithZod(formData, { schema })\<close> first reads the form into a payload and then runs
  the schema on it. The reading is the form library's and is a parameter of the actions, a
  \<open>form_reader\<close>: \<open>None\<close> when the library throws, otherwise whether the form carries a
  form-control intent (the reserved entry \<open>__intent__\<close>) and the payload handed to the
  schema. A payload entry is a string (\<open>Text\<close>), absent (\<open>Missing\<close>), or anything else
  (\<open>Not_text\<close>): the array of a name submitted more than once, an object, a file.
\<close>

datatype form_value = Missing | Text string | Not_text

record submission_context =
  sc_intent :: bool
  sc_payload :: "string \<Rightarrow> form_value"

type_synonym form_reader = "(string \<times> string) list \<Rightarrow> submission_context option"

text \<open>An empty string counts as missing when the schema is run.\<close>

definition coerce :: "form_value \<Rightarrow> form_value" where
  "coerce v = (case v of Text s \<Rightarrow> if s = [] then Missing else Text s | _ \<Rightarrow> v)"

text \<open>
  What a schema returns: a value with no issue, a value with issues (a failed check on a
  value of the right type), or issues only (a value of the wrong type). A refinement runs on
  the first two and adds its issues.
\<close>

datatype 'a parsed = Valid 'a | Dirty 'a "issue list" | Aborted "issue list"

definition superRefine :: "('a \<Rightarrow> issue list) \<Rightarrow> 'a parsed \<Rightarrow> 'a parsed" where
  "superRefine refinement r =
     (case r of
        Valid x \<Rightarrow> if refinement x = [] then Valid x else Dirty x (refinement x)
      | Dirty x issues \<Rightarrow> Dirty x (issues @ refinement x)
      | Aborted issues \<Rightarrow> Aborted issues)"

text \<open>
  The status of a submission: "success" with the value, "error" with the issues, or neither
  (\<open>No_status\<close>) when the form carries a form-control intent, valid or not.
\<close>

datatype 'a submission = Success 'a | Error "issue list" | No_status

definition parseWithZod :: "submission_context \<Rightarrow> 'a parsed \<Rightarrow> 'a submission" where
  "parseWithZod ctx r =
     (if sc_intent ctx then No_status
      else case r of
             Valid x \<Rightarrow> Success x
           | Dirty x issues \<Rightarrow> Error issues
           | Aborted issues \<Rightarrow> Error issues)"

subsection \<open>The verification table: unique on (target, type)\<close>

definition twoFAVerificationType :: string where
  "twoFAVerificationType = ''2fa''"

definition twoFAVerifyVerificationType :: string where
  "twoFAVerifyVerificationType = ''2fa-verify''"

text \<open>The compound unique key \<open>target_type: { type, target }\<close> of a \<open>where\<close> clause.\<close>

definition target_type :: "string \<Rightarrow> string \<Rightarrow> verification \<Rightarrow> bool" where
  "target_type ty tg v = (v_type v = ty \<and> v_target v = tg)"

definition unique_target_type :: "verification list \<Rightarrow> bool" where
  "unique_target_type vs = distinct (map (\<lambda>v. (v_target v, v_type v)) vs)"

definition verification_findUnique :: "string \<Rightarrow> string \<Rightarrow> verification list \<Rightarrow> verification option" where
  "verification_findUnique ty tg vs = find (target_type ty tg) vs"

text \<open>
  The \<open>data\<close> object of a create or an upsert. \<open>d_expiresAt = None\<close>: the key is not in
  the object (the column keeps its value on update and is null on create).
\<close>

record verification_data =
  d_type :: string
  d_target :: string
  d_secret :: string
  d_algorithm :: algorithm
  d_digits :: nat
  d_period :: int
  d_charSet :: string
  d_expiresAt :: "int option option"

definition create_row :: "string \<Rightarrow> int \<Rightarrow> verification_data \<Rightarrow> verification" where
  "create_row new_id now d =
     \<lparr> v_id = new_id, v_createdAt = now, v_type = d_type d, v_target = d_target d,
       v_secret = d_secret d, v_algorithm = d_algorithm d, v_digits = d_digits d,
       v_period = d_period d, v_charSet = d_charSet d,
       v_expiresAt = (case d_expiresAt d of None \<Rightarrow> None | Some e \<Rightarrow> e) \<rparr>"

definition update_row :: "verification_data \<Rightarrow> verification \<Rightarrow> verification" where
  "update_row d v =
     v \<lparr> v_type := d_type d, v_target := d_target d,
         v_secret := d_secret d, v_algorithm := d_algorithm d, v_digits := d_digits d,
         v_period := d_period d, v_charSet := d_charSet d,
         v_expiresAt := (case d_expiresAt d of None \<Rightarrow> v_expiresAt v | Some e \<Rightarrow> e) \<rparr>"

definition verification_upsert ::
  "string \<Rightarrow> string \<Rightarrow> verification_data \<Rightarrow> verification_data \<Rightarrow> string \<Rightarrow> int \<Rightarrow>
   verification list \<Rightarrow> verification list" where
  "verification_upsert ty tg create update new_id now vs =
     (case find (target_type ty tg) vs of
        None \<Rightarrow> vs @ [create_row new_id now create]
      | Some _ \<Rightarrow> map (\<lambda>v. if target_type ty tg v then update_row update v else v) vs)"

text \<open>
  \<open>update({ where: { target_type }, data: { type } })\<close>: the row must exist (P2025
  otherwise) and the new key must not collide with another row (P2002 otherwise).
\<close>

definition verification_update_type ::
  "string \<Rightarrow> string \<Rightarrow> string \<Rightarrow> verification list \<Rightarrow> prisma_error + verification list" where
  "verification_update_type ty tg new_ty vs =
     (case find (target_type ty tg) vs of
        None \<Rightarrow> Inl P2025
      | Some _ \<Rightarrow>
          if new_ty \<noteq> ty \<and> find (target_type new_ty tg) vs \<noteq> None then Inl P2002
          else Inr (map (\<lambda>v. if target_type ty tg v then v \<lparr> v_type := new_ty \<rparr> else v) vs))"

definition verification_deleteMany :: "string \<Rightarrow> string \<Rightarrow> verification list \<Rightarrow> verification list" where
  "verification_deleteMany ty tg vs = filter (\<lambda>v. \<not> target_type ty tg v) vs"

section \<open>settings/profile/two-factor (index): is 2FA enabled, and the enable action\<close>

text \<open>What \<open>generateTOTP()\<close> returns: the configuration and the current code.\<close>

record totp_config =
  secret :: string
  period :: int
  digits :: nat
  algorithm :: algorithm
  charSet :: string

record totp = totp_config +
  otp :: string

text \<open>\<open>const { otp: _otp, ...config } = generateTOTP()\<close>\<close>

definition config_of :: "totp \<Rightarrow> totp_config" where
  "config_of g = totp_config.truncate g"

definition verificationData :: "totp_config \<Rightarrow> string \<Rightarrow> string \<Rightarrow> verification_data" where
  "verificationData config ty userId =
     \<lparr> d_type = ty, d_target = userId, d_secret = secret config,
       d_algorithm = algorithm config, d_digits = digits config, d_period = period config,
       d_charSet = charSet config, d_expiresAt = None \<rparr>"

definition two_factor_loader :: "request \<Rightarrow> db \<Rightarrow> outcome" where
  "two_factor_loader req d =
     (case r_userId req of
        None \<Rightarrow> Inl Login_redirect
      | Some userId \<Rightarrow>
          Inr (Json (Is2FAEnabled
                 (verification_findUnique twoFAVerificationType userId (verifications d) \<noteq> None)) 200))"

text \<open>
  The enable action. \<open>g\<close> is what \<open>generateTOTP()\<close> returned for this request, \<open>new_id\<close>
  and \<open>now\<close> are the column defaults the database would give a created row.
\<close>

definition two_factor_action :: "request \<Rightarrow> totp \<Rightarrow> string \<Rightarrow> int \<Rightarrow> db \<Rightarrow> outcome \<times> db" where
  "two_factor_action req g new_id now d =
     (case r_userId req of
        None \<Rightarrow> (Inl Login_redirect, d)
      | Some userId \<Rightarrow>
          (let config = config_of g;
               data = verificationData config twoFAVerifyVerificationType userId
           in (Inr (Redirect ''/settings/profile/two-factor/verify''),
               d \<lparr> verifications :=
                     verification_upsert twoFAVerifyVerificationType userId data data new_id now
                       (verifications d) \<rparr>)))"

text \<open>The enable action submitted once for each element of a list, in order.\<close>

fun two_factor_actions :: "request \<Rightarrow> (totp \<times> string \<times> int) list \<Rightarrow> db \<Rightarrow> db" where
  "two_factor_actions req [] d = d"
| "two_factor_actions req ((g, new_id, now) # es) d =
     two_factor_actions req es (snd (two_factor_action req g new_id now d))"

section \<open>settings/profile/two-factor/verify: the verify and cancel action\<close>

datatype intent = Cancel | Verify string

text \<open>
  \<open>ActionSchema\<close>: the discriminated union on \<open>intent\<close>; for "verify" the code must be
  a string of exactly six characters.
\<close>

definition ActionSchema :: "(string \<Rightarrow> form_value) \<Rightarrow> intent parsed" where
  "ActionSchema payload =
     (case coerce (payload ''intent'') of
        Text i \<Rightarrow>
          if i = ''cancel'' then Valid Cancel
          else if i = ''verify'' then
            (case coerce (payload ''code'') of
               Missing \<Rightarrow> Aborted [Issue ''code'' Required]
             | Not_text \<Rightarrow> Aborted [Issue ''code'' Invalid_value]
             | Text c \<Rightarrow>
                 if length c < 6 then Dirty (Verify c) [Issue ''code'' Too_small]
                 else if 6 < length c then Dirty (Verify c) [Issue ''code'' Too_big]
                 else Valid (Verify c))
          else Aborted [Issue ''intent'' Invalid_discriminator]
      | _ \<Rightarrow> Aborted [Issue ''intent'' Invalid_discriminator])"

text \<open>
  The refinement of the action: nothing for "cancel"; for "verify" it asks \<open>codeIsValid\<close>
  about the submitted code and adds the issue "Invalid code" on the path \<open>code\<close> when it
  says no.
\<close>

definition refine_code :: "(string \<Rightarrow> bool) \<Rightarrow> intent \<Rightarrow> issue list" where
  "refine_code codeIsValid data =
     (case data of
        Cancel \<Rightarrow> []
      | Verify code \<Rightarrow>
          if codeIsValid code then [] else [Issue ''code'' (Custom ''Invalid code'')])"

text \<open>
  \<open>isCodeValid\<close> is imported from \<open>app/routes/_auth+/verify.server.ts\<close>; the action takes it
  as a parameter: the verdict on a code for a (type, target), given the database it reads.
\<close>

type_synonym validator = "db \<Rightarrow> string \<Rightarrow> string \<Rightarrow> string \<Rightarrow> bool"

definition two_factor_verify_action ::
  "form_reader \<Rightarrow> validator \<Rightarrow> request \<Rightarrow> db \<Rightarrow> outcome \<times> db" where
  "two_factor_verify_action read isCodeValid req d =
     (case r_userId req of
        None \<Rightarrow> (Inl Login_redirect, d)
      | Some userId \<Rightarrow>
          (case read (r_formData req) of
             None \<Rightarrow> (Inl Form_thrown, d)
           | Some ctx \<Rightarrow>
               (case parseWithZod ctx
                       (superRefine
                          (refine_code (\<lambda>code. isCodeValid d code twoFAVerifyVerificationType userId))
                          (ActionSchema (sc_payload ctx))) of
                  Error issues \<Rightarrow> (Inr (Json (Reply issues) 400), d)
                | No_status \<Rightarrow> (Inr (Json Intent_reply 200), d)
                | Success Cancel \<Rightarrow>
                    (Inr (Redirect ''/settings/profile/two-factor''),
                     d \<lparr> verifications :=
                           verification_deleteMany twoFAVerifyVerificationType userId
                             (verifications d) \<rparr>)
                | Success (Verify code) \<Rightarrow>
                    (case verification_update_type twoFAVerifyVerificationType userId
                            twoFAVerificationType (verifications d) of
                       Inl e \<Rightarrow> (Inl (Prisma_thrown e), d)
                     | Inr vs \<Rightarrow>
                         (Inr (Redirect_toast ''/settings/profile/two-factor'' ''success'' ''Enabled''
                                 ''Two-factor authentication has been enabled.''),
                          d \<lparr> verifications := vs \<rparr>)))))"

section \<open>The validator and the request of a verification\<close>

text \<open>
  \<open>isCodeValid\<close> and \<open>prepareVerification\<close> live in \<open>app/routes/_auth+/verify.server.ts\<close>
  and the code derivation in \<open>app/utils/totp.server.ts\<close>; neither file is among the
  sources. The keyed hash with its dynamic truncation is a parameter, \<open>hmac hash secret
  counter\<close>; whether the windows next to the current one are tolerated is the parameter
  \<open>skew\<close>.
\<close>

type_synonym hmac = "string \<Rightarrow> string \<Rightarrow> int \<Rightarrow> nat"

text \<open>Modelled from the spec: the decimal digit of a code position (section 4.1).\<close>

definition digit_char :: "nat \<Rightarrow> char" where
  "digit_char n = ''0123456789'' ! (n mod 10)"

text \<open>Modelled from the spec: a code of \<open>digits\<close> decimal characters (section 4.1), the
  value written with leading zeros.\<close>

primrec decimal :: "nat \<Rightarrow> nat \<Rightarrow> string" where
  "decimal 0 n = []"
| "decimal (Suc k) n = decimal k (n div 10) @ [digit_char n]"

text \<open>Modelled from the spec: the derivation of section 4.1 for one counter value: HMAC the
  counter with the secret, apply dynamic truncation, reduce modulo \<open>10 ^ digits\<close>.\<close>

definition totp_code :: "hmac \<Rightarrow> string \<Rightarrow> string \<Rightarrow> nat \<Rightarrow> int \<Rightarrow> string" where
  "totp_code hm hash sec n counter = decimal n (hm hash sec counter mod 10 ^ n)"

text \<open>Modelled from the spec: "divide Unix time by \<open>period\<close> to get a counter" (section 4.1).\<close>

definition time_window :: "int \<Rightarrow> int \<Rightarrow> int" where
  "time_window now per = now div per"

text \<open>Modelled from the spec: the tolerance set of section 4.3, the current window and,
  to tolerate clock skew, the immediately preceding and following windows.\<close>

definition tolerated_windows :: "bool \<Rightarrow> int \<Rightarrow> int list" where
  "tolerated_windows skew c = (if skew then [c - 1, c, c + 1] else [c])"

text \<open>Modelled from the spec: the comparison of section 4.3. A time-based record matches the
  code of any window of the tolerance set; a simple record matches its stored code.\<close>

definition code_matches :: "hmac \<Rightarrow> bool \<Rightarrow> string \<Rightarrow> verification \<Rightarrow> int \<Rightarrow> bool" where
  "code_matches hm skew code r now =
     (case v_algorithm r of
        Time_based hash \<Rightarrow>
          code \<in> set (map (totp_code hm hash (v_secret r) (v_digits r))
                        (tolerated_windows skew (time_window now (v_period r))))
      | Simple_random \<Rightarrow> code = v_secret r)"

text \<open>Modelled from the spec: "expired records are invalid regardless of code match"; a
  record without \<open>expiresAt\<close> has no absolute cutoff (section 3).\<close>

definition expired :: "verification \<Rightarrow> int \<Rightarrow> bool" where
  "expired r now = (case v_expiresAt r of None \<Rightarrow> False | Some e \<Rightarrow> e \<le> now)"

text \<open>Modelled from the spec: \<open>isValid(submittedCode, record, now)\<close> of section 4.3: an absent
  record is invalid, an expired one is invalid, otherwise the comparison decides.\<close>

definition isValid :: "hmac \<Rightarrow> bool \<Rightarrow> string \<Rightarrow> verification option \<Rightarrow> int \<Rightarrow> bool" where
  "isValid hm skew code record now =
     (case record of
        None \<Rightarrow> False
      | Some r \<Rightarrow> \<not> expired r now \<and> code_matches hm skew code r now)"

text \<open>Modelled from the spec: \<open>isCodeValid({ code, type, target })\<close>, the validator of
  section 4.3 on the record looked up by (type, target), at the time \<open>now\<close> of the call.\<close>

definition isCodeValid :: "hmac \<Rightarrow> bool \<Rightarrow> int \<Rightarrow> validator" where
  "isCodeValid hm skew now d code ty tg =
     isValid hm skew code (verification_findUnique ty tg (verifications d)) now"


text \<open>Modelled from the spec: \<open>prepareVerification({ period, type, target })\<close>, the
  \<open>request\<close> transition of section 4.4: generate, upsert the record for (type, target)
  with the absolute expiry \<open>now + period\<close>, and return the code for delivery. \<open>g\<close> is
  what the generator returned.\<close>

definition prepareVerification ::
  "int \<Rightarrow> string \<Rightarrow> string \<Rightarrow> totp \<Rightarrow> string \<Rightarrow> int \<Rightarrow> db \<Rightarrow> string \<times> db" where
  "prepareVerification per ty tg g new_id now d =
     (let data = (verificationData (config_of g) ty tg) \<lparr> d_expiresAt := Some (Some (now + per)) \<rparr>
      in (otp g,
          d \<lparr> verifications := verification_upsert ty tg data data new_id now (verifications d) \<rparr>))"

section \<open>settings/profile/change-email: the action\<close>

datatype email_result = Sent | Send_error string

text \<open>
  \<open>ChangeEmailSchema\<close> is the object with the one field \<open>email\<close>. \<open>EmailSchema\<close>
  comes from \<open>app/utils/user-validation.ts\<close> and is a parameter: what it returns for the
  payload entry.
\<close>

definition ChangeEmailSchema ::
  "(form_value \<Rightarrow> string parsed) \<Rightarrow> (string \<Rightarrow> form_value) \<Rightarrow> string parsed" where
  "ChangeEmailSchema EmailSchema payload = EmailSchema (coerce (payload ''email''))"

text \<open>The refinement of the action: the address must not be the one of an existing user.\<close>

definition refine_email :: "user list \<Rightarrow> string \<Rightarrow> issue list" where
  "refine_email us email =
     (if find (\<lambda>u. u_email u = email) us \<noteq> None
      then [Issue ''email'' (Custom ''This email is already in use.'')]
      else [])"

definition change_email_action ::
  "form_reader \<Rightarrow> (form_value \<Rightarrow> string parsed) \<Rightarrow> request \<Rightarrow> totp \<Rightarrow> string \<Rightarrow> int \<Rightarrow>
   email_result \<Rightarrow> db \<Rightarrow> outcome \<times> db" where
  "change_email_action read EmailSchema req g new_id now sent d =
     (case r_userId req of
        None \<Rightarrow> (Inl Login_redirect, d)
      | Some userId \<Rightarrow>
          (case read (r_formData req) of
             None \<Rightarrow> (Inl Form_thrown, d)
           | Some ctx \<Rightarrow>
               (case parseWithZod ctx
                       (superRefine (refine_email (users d))
                          (ChangeEmailSchema EmailSchema (sc_payload ctx))) of
                  Error issues \<Rightarrow> (Inr (Json (Reply issues) 400), d)
                | No_status \<Rightarrow> (Inr (Json Intent_reply 200), d)
                | Success email \<Rightarrow>
                    (let (code, d') =
                           prepareVerification (10 * 60) ''change-email'' userId g new_id now d
                     in case sent of
                          Sent \<Rightarrow> (Inr (Redirect_verify ''change-email'' userId email), d')
                        | Send_error message \<Rightarrow> (Inr (Json (Form_errors [message]) 500), d')))))"

section \<open>settings/profile (index): sign out of the other sessions\<close>

definition session_deleteMany :: "string \<Rightarrow> string \<Rightarrow> session list \<Rightarrow> session list" where
  "session_deleteMany userId sessionId ss =
     filter (\<lambda>s. \<not> (s_userId s = userId \<and> s_id s \<noteq> sessionId)) ss"

text \<open>\<open>invariantResponse(sessionId, ...)\<close> throws on a missing and on an empty session id.\<close>

definition signOutOfSessionsAction :: "request \<Rightarrow> string \<Rightarrow> db \<Rightarrow> outcome \<times> db" where
  "signOutOfSessionsAction req userId d =
     (case r_sessionId req of
        None \<Rightarrow>
          (Inl (Response_thrown ''You must be authenticated to sign out of other sessions'' 400), d)
      | Some sessionId \<Rightarrow>
          if sessionId = []
          then (Inl (Response_thrown ''You must be authenticated to sign out of other sessions'' 400), d)
          else (Inr (Json (Status ''success'') 200),
                d \<lparr> sessions := session_deleteMany userId sessionId (sessions d) \<rparr>))"

section \<open>settings/profile/connections: deleting a connection\<close>

definition count_connections :: "string \<Rightarrow> db \<Rightarrow> nat" where
  "count_connections userId d = length (filter (\<lambda>c. c_userId c = userId) (connections d))"

definition has_password :: "string \<Rightarrow> db \<Rightarrow> bool" where
  "has_password userId d = (find (\<lambda>p. p_userId p = userId) (passwords d) \<noteq> None)"

definition userCanDeleteConnections :: "string \<Rightarrow> db \<Rightarrow> bool" where
  "userCanDeleteConnections userId d =
     (case find (\<lambda>u. u_id u = userId) (users d) of
        None \<Rightarrow> False
      | Some u \<Rightarrow>
          if has_password userId d then True
          else 1 < count_connections userId d)"

text \<open>\<open>connection.delete({ where: { id, userId } })\<close>: P2025 when no such row exists.\<close>

definition connection_delete :: "string \<Rightarrow> string \<Rightarrow> connection list \<Rightarrow> prisma_error + connection list" where
  "connection_delete connectionId userId cs =
     (case find (\<lambda>c. c_id c = connectionId \<and> c_userId c = userId) cs of
        None \<Rightarrow> Inl P2025
      | Some c \<Rightarrow> Inr (remove1 c cs))"

definition connections_action :: "request \<Rightarrow> db \<Rightarrow> outcome \<times> db" where
  "connections_action req d =
     (case r_userId req of
        None \<Rightarrow> (Inl Login_redirect, d)
      | Some userId \<Rightarrow>
          if formData_get (r_formData req) ''intent'' \<noteq> Some ''delete-connection''
          then (Inl (Response_thrown ''Invalid intent'' 400), d)
          else if \<not> userCanDeleteConnections userId d
          then (Inl (Response_thrown
                  ''You cannot delete your last connection unless you have a password.'' 400), d)
          else
            (case formData_get (r_formData req) ''connectionId'' of
               None \<Rightarrow> (Inl (Response_thrown ''Invalid connectionId'' 400), d)
             | Some connectionId \<Rightarrow>
                 (case connection_delete connectionId userId (connections d) of
                    Inl e \<Rightarrow> (Inl (Prisma_thrown e), d)
                  | Inr cs \<Rightarrow> (Inr (Json (Status ''success'') 200), d \<lparr> connections := cs \<rparr>))))"

section \<open>Sample data\<close>

text \<open>
  Two users, their sessions and connections, and the rows the flows leave behind, on which
  the properties below are evaluated. \<open>sample_hmac\<close> stands in for the keyed hash in
  these evaluations only; every property is proved for an arbitrary hash function.
\<close>

definition sample_hmac :: hmac where
  "sample_hmac hash sec counter = 7919 * nat \<bar>counter\<bar> + length sec"

definition sample_totp :: totp where
  "sample_totp = \<lparr> secret = ''JBSWY3DPEHPK3PXP'', period = 30, digits = 6,
                    algorithm = Time_based ''SHA1'', charSet = ''0123456789'', otp = ''000016'' \<rparr>"

definition other_totp :: totp where
  "other_totp = \<lparr> secret = ''KRSXG5CTMVRXEZLU'', period = 30, digits = 6,
                   algorithm = Time_based ''SHA1'', charSet = ''0123456789'', otp = ''007935'' \<rparr>"

definition sample_db :: db where
  "sample_db =
     \<lparr> users = [\<lparr> u_id = ''user-42'', u_email = ''kody@example.com'', u_username = ''kody'' \<rparr>,
                \<lparr> u_id = ''user-7'', u_email = ''hannah@example.com'', u_username = ''hannah'' \<rparr>],
       passwords = [\<lparr> p_userId = ''user-7'', p_hash = ''$2a$10$abc'' \<rparr>],
       connections = [\<lparr> c_id = ''conn-1'', c_providerName = ''github'', c_providerId = ''1001'',
                        c_userId = ''user-42'' \<rparr>,
                      \<lparr> c_id = ''conn-2'', c_providerName = ''github'', c_providerId = ''1002'',
                        c_userId = ''user-7'' \<rparr>],
       sessions = [\<lparr> s_id = ''session-1'', s_userId = ''user-42'', s_expirationDate = 2592000 \<rparr>,
                   \<lparr> s_id = ''session-2'', s_userId = ''user-42'', s_expirationDate = 2592000 \<rparr>,
                   \<lparr> s_id = ''session-3'', s_userId = ''user-7'', s_expirationDate = 2592000 \<rparr>],
       verifications = [] \<rparr>"

definition pending_row :: verification where
  "pending_row =
     \<lparr> v_id = ''verification-1'', v_createdAt = 0, v_type = ''2fa-verify'', v_target = ''user-42'',
       v_secret = ''JBSWY3DPEHPK3PXP'', v_algorithm = Time_based ''SHA1'', v_digits = 6,
       v_period = 30, v_charSet = ''0123456789'', v_expiresAt = None \<rparr>"

definition pending_db :: db where
  "pending_db = sample_db \<lparr> verifications := [pending_row] \<rparr>"

definition sample_request :: "(string \<times> string) list \<Rightarrow> request" where
  "sample_request form =
     \<lparr> r_userId = Some ''user-42'', r_sessionId = Some ''session-1'', r_formData = form \<rparr>"

definition verify_form :: "string \<Rightarrow> (string \<times> string) list" where
  "verify_form code = [(''intent'', ''verify''), (''code'', code)]"

definition enabled_db :: db where
  "enabled_db = sample_db \<lparr> verifications := [pending_row \<lparr> v_type := ''2fa'' \<rparr>] \<rparr>"

definition invalid_code_reply :: response where
  "invalid_code_reply = Json (Reply [Issue ''code'' (Custom ''Invalid code'')]) 400"

definition cancel_form :: "(string \<times> string) list" where
  "cancel_form = [(''intent'', ''cancel'')]"

definition cookieless_request :: request where
  "cookieless_request = \<lparr> r_userId = Some ''user-42'', r_sessionId = None, r_formData = [] \<rparr>"

definition delete_connection_request :: "string \<Rightarrow> string \<Rightarrow> request" where
  "delete_connection_request userId connectionId =
     \<lparr> r_userId = Some userId, r_sessionId = Some ''session-3'',
       r_formData = [(''intent'', ''delete-connection''), (''connectionId'', connectionId)] \<rparr>"




text \<open>
  \<open>sample_reader\<close> stands in for the form library on forms whose names are plain field
  names: a name submitted once gives its string, a name submitted again after a non-empty
  value gives an array, and the entry \<open>__intent__\<close> is the form-control intent.
  \<open>sample_EmailSchema\<close> stands in for \<open>EmailSchema\<close> and accepts every non-empty string.
\<close>

fun add_value :: "form_value \<Rightarrow> string \<Rightarrow> form_value" where
  "add_value Missing next = Text next"
| "add_value (Text prev) next = (if prev = [] then Text next else Not_text)"
| "add_value Not_text next = Not_text"

definition sample_context :: "(string \<times> string) list \<Rightarrow> submission_context" where
  "sample_context form =
     \<lparr> sc_intent = (map_of form ''__intent__'' \<noteq> None),
       sc_payload = (\<lambda>name. if name = ''__intent__'' then Missing
                             else foldl add_value Missing
                                    (map snd (filter (\<lambda>entry. fst entry = name) form))) \<rparr>"

definition sample_reader :: form_reader where
  "sample_reader form = Some (sample_context form)"


section \<open>Properties\<close>

subsection \<open>The verification table\<close>

lemma twoFA_types_differ: "twoFAVerificationType \<noteq> twoFAVerifyVerificationType"
  by (simp add: twoFAVerificationType_def twoFAVerifyVerificationType_def)

lemma find_None_filter: "find P xs = None \<Longrightarrow> filter P xs = []"
  by (induction xs) (auto split: if_splits)

lemma find_Some_mem: "find P xs = Some x \<Longrightarrow> x \<in> set xs \<and> P x"
  by (induction xs) (auto split: if_splits)

lemma find_filter_hd: "find P xs = (case filter P xs of [] \<Rightarrow> None | x # _ \<Rightarrow> Some x)"
  by (induction xs) auto

lemma unique_Cons:
  "unique_target_type (v # vs) \<longleftrightarrow>
     (\<forall>w \<in> set vs. \<not> target_type (v_type v) (v_target v) w) \<and> unique_target_type vs"
  by (fastforce simp: unique_target_type_def target_type_def image_iff)

lemma unique_filter_le1:
  "unique_target_type vs \<Longrightarrow> length (filter (target_type ty tg) vs) \<le> 1"
proof (induction vs)
  case Nil
  then show ?case by simp
next
  case (Cons v vs)
  show ?case
  proof (cases "target_type ty tg v")
    case True
    then have "v_type v = ty" "v_target v = tg" by (simp_all add: target_type_def)
    with Cons.prems have "\<forall>w \<in> set vs. \<not> target_type ty tg w"
      by (simp add: unique_Cons)
    then have "filter (target_type ty tg) vs = []" by (simp add: filter_empty_conv)
    with True show ?thesis by simp
  next
    case False
    with Cons show ?thesis by (simp add: unique_Cons)
  qed
qed

lemma unique_find_filter:
  assumes "unique_target_type vs" "find (target_type ty tg) vs = Some v"
  shows "filter (target_type ty tg) vs = [v]"
proof -
  from assms(2) obtain w ws where w: "filter (target_type ty tg) vs = w # ws"
    by (cases "filter (target_type ty tg) vs") (auto simp: find_filter_hd)
  with unique_filter_le1 [OF assms(1), of ty tg] have "ws = []" by simp
  with w assms(2) show ?thesis by (simp add: find_filter_hd)
qed

lemma unique_append1:
  "unique_target_type vs \<Longrightarrow> find (target_type (v_type v) (v_target v)) vs = None \<Longrightarrow>
   unique_target_type (vs @ [v])"
  by (auto simp: unique_target_type_def target_type_def find_None_iff)

lemma unique_map_same_key:
  "unique_target_type vs \<Longrightarrow> (\<And>v. v \<in> set vs \<Longrightarrow> v_type (f v) = v_type v \<and> v_target (f v) = v_target v) \<Longrightarrow>
   unique_target_type (map f vs)"
proof -
  assume u: "unique_target_type vs" and k: "\<And>v. v \<in> set vs \<Longrightarrow> v_type (f v) = v_type v \<and> v_target (f v) = v_target v"
  have "map (\<lambda>v. (v_target v, v_type v)) (map f vs) = map (\<lambda>v. (v_target v, v_type v)) vs"
    using k by (induction vs) auto
  with u show ?thesis by (simp only: unique_target_type_def)
qed

lemma unique_filter: "unique_target_type vs \<Longrightarrow> unique_target_type (filter P vs)"
  by (simp add: unique_target_type_def distinct_map_filter)

lemma upsert_unique:
  assumes "unique_target_type vs" "d_type c = ty" "d_target c = tg" "d_type u = ty" "d_target u = tg"
  shows "unique_target_type (verification_upsert ty tg c u new_id now vs)"
proof (cases "find (target_type ty tg) vs")
  case None
  with assms show ?thesis
    by (simp add: verification_upsert_def unique_append1 create_row_def)
next
  case (Some a)
  have "unique_target_type (map (\<lambda>v. if target_type ty tg v then update_row u v else v) vs)"
    using assms by (intro unique_map_same_key) (auto simp: update_row_def target_type_def)
  with Some show ?thesis by (simp add: verification_upsert_def)
qed

lemma upsert_find:
  assumes "d_type c = ty" "d_target c = tg" "d_type u = ty" "d_target u = tg"
  shows "verification_findUnique ty tg (verification_upsert ty tg c u new_id now vs) =
           (case find (target_type ty tg) vs of
              None \<Rightarrow> Some (create_row new_id now c)
            | Some v \<Rightarrow> Some (update_row u v))"
proof (cases "find (target_type ty tg) vs")
  case None
  then have "find (target_type ty tg) (vs @ [create_row new_id now c]) = Some (create_row new_id now c)"
    using assms by (induction vs) (auto simp: target_type_def create_row_def split: if_splits)
  with None show ?thesis by (simp add: verification_upsert_def verification_findUnique_def)
next
  case (Some v)
  have "find (target_type ty tg) (map (\<lambda>v. if target_type ty tg v then update_row u v else v) vs) = Some (update_row u v)"
    using Some assms by (induction vs) (auto simp: target_type_def update_row_def split: if_splits)
  with Some show ?thesis by (simp add: verification_upsert_def verification_findUnique_def)
qed


lemma config_of_otp: "config_of (g\<lparr>otp := x\<rparr>) = config_of g"
  by (simp add: config_of_def totp_config.truncate_def)

lemma verificationData_key:
  "d_type (verificationData c ty u) = ty" "d_target (verificationData c ty u) = u"
  by (simp_all add: verificationData_def)

lemma enable_step_verifications:
  "r_userId req = Some userId \<Longrightarrow>
   verifications (snd (two_factor_action req g new_id now d)) =
     verification_upsert twoFAVerifyVerificationType userId
       (verificationData (config_of g) twoFAVerifyVerificationType userId)
       (verificationData (config_of g) twoFAVerifyVerificationType userId) new_id now (verifications d)"
  by (simp add: two_factor_action_def Let_def)

lemma enable_step_unique:
  "r_userId req = Some userId \<Longrightarrow> unique_target_type (verifications d) \<Longrightarrow>
   unique_target_type (verifications (snd (two_factor_action req g new_id now d)))"
  by (simp add: enable_step_verifications upsert_unique verificationData_key)

lemma enable_step_find:
  assumes "r_userId req = Some userId"
  shows "\<exists>v. verification_findUnique twoFAVerifyVerificationType userId
               (verifications (snd (two_factor_action req g new_id now d))) = Some v \<and>
             v_type v = twoFAVerifyVerificationType \<and> v_target v = userId \<and>
             v_secret v = secret g \<and> v_algorithm v = algorithm g \<and> v_period v = period g \<and>
             v_digits v = digits g \<and> v_charSet v = charSet g"
proof -
  let ?data = "verificationData (config_of g) twoFAVerifyVerificationType userId"
  have "verification_findUnique twoFAVerifyVerificationType userId
          (verifications (snd (two_factor_action req g new_id now d))) =
        (case find (target_type twoFAVerifyVerificationType userId) (verifications d) of
           None \<Rightarrow> Some (create_row new_id now ?data)
         | Some v \<Rightarrow> Some (update_row ?data v))"
    by (simp add: enable_step_verifications [OF assms] upsert_find verificationData_key)
  then show ?thesis
    by (cases "find (target_type twoFAVerifyVerificationType userId) (verifications d)")
       (simp_all add: create_row_def update_row_def verificationData_def config_of_def
          totp_config.truncate_def)
qed

text \<open>
  Claim C8. The enable action does not persist the one-time code that the generator
  returned: what it returns and what it stores are the same whatever \<open>otp\<close> holds, and
  the row it leaves for (2fa-verify, user id) carries the generated secret, algorithm, period,
  digits and charSet.
\<close>

theorem enable_discards_otp:
  assumes "r_userId req = Some userId"
  shows "two_factor_action req (g\<lparr>otp := x\<rparr>) new_id now d = two_factor_action req g new_id now d \<and>
         (\<exists>v. verification_findUnique twoFAVerifyVerificationType userId
               (verifications (snd (two_factor_action req g new_id now d))) = Some v \<and>
             v_type v = twoFAVerifyVerificationType \<and> v_target v = userId \<and>
             v_secret v = secret g \<and> v_algorithm v = algorithm g \<and> v_period v = period g \<and>
             v_digits v = digits g \<and> v_charSet v = charSet g)"
proof
  show "two_factor_action req (g\<lparr>otp := x\<rparr>) new_id now d = two_factor_action req g new_id now d"
    by (simp add: two_factor_action_def config_of_otp Let_def split: option.splits)
  show "\<exists>v. verification_findUnique twoFAVerifyVerificationType userId
               (verifications (snd (two_factor_action req g new_id now d))) = Some v \<and>
             v_type v = twoFAVerifyVerificationType \<and> v_target v = userId \<and>
             v_secret v = secret g \<and> v_algorithm v = algorithm g \<and> v_period v = period g \<and>
             v_digits v = digits g \<and> v_charSet v = charSet g"
    by (rule enable_step_find [OF assms])
qed

lemma unique_find_length:
  "unique_target_type vs \<Longrightarrow> find (target_type ty tg) vs \<noteq> None \<Longrightarrow>
   length (filter (target_type ty tg) vs) = 1"
  using unique_find_filter by fastforce

text \<open>
  Claim C2. Submitting the enable action any number of times, at least once, on a table
  that is unique on (target, type) leaves the table unique, with exactly one row for
  (2fa-verify, user id), and that row holds the configuration of the last submission.
\<close>

theorem enable_repeated_one_record:
  assumes "unique_target_type (verifications d)" "r_userId req = Some userId" "es \<noteq> []"
  shows "unique_target_type (verifications (two_factor_actions req es d)) \<and>
         length (filter (target_type twoFAVerifyVerificationType userId)
                   (verifications (two_factor_actions req es d))) = 1 \<and>
         (\<exists>v. verification_findUnique twoFAVerifyVerificationType userId
                 (verifications (two_factor_actions req es d)) = Some v \<and>
               v_secret v = secret (fst (last es)) \<and> v_algorithm v = algorithm (fst (last es)) \<and>
               v_period v = period (fst (last es)) \<and> v_digits v = digits (fst (last es)) \<and>
               v_charSet v = charSet (fst (last es)))"
  using assms(1,3)
proof (induction es arbitrary: d)
  case Nil
  then show ?case by simp
next
  case (Cons e es)
  obtain g new_id now where e: "e = (g, new_id, now)" by (cases e)
  let ?d = "snd (two_factor_action req g new_id now d)"
  have u: "unique_target_type (verifications ?d)"
    using Cons.prems(1) assms(2) by (rule enable_step_unique [rotated])
  show ?case
  proof (cases "es = []")
    case True
    from enable_step_find [OF assms(2), of g new_id now d]
    obtain v where v: "verification_findUnique twoFAVerifyVerificationType userId (verifications ?d) = Some v"
      "v_secret v = secret g" "v_algorithm v = algorithm g" "v_period v = period g"
      "v_digits v = digits g" "v_charSet v = charSet g"
      by blast
    from v(1) have "find (target_type twoFAVerifyVerificationType userId) (verifications ?d) \<noteq> None"
      by (simp add: verification_findUnique_def)
    with u have "length (filter (target_type twoFAVerifyVerificationType userId) (verifications ?d)) = 1"
      by (rule unique_find_length)
    with u v True e show ?thesis by simp
  next
    case False
    with Cons.IH [OF u] e show ?thesis by simp
  qed
qed

lemma update_type_Inr:
  assumes "verification_update_type ty tg new vs = Inr vs'"
  shows "vs' = map (\<lambda>v. if target_type ty tg v then v \<lparr> v_type := new \<rparr> else v) vs"
    and "find (target_type ty tg) vs \<noteq> None"
    and "new \<noteq> ty \<Longrightarrow> find (target_type new tg) vs = None"
  using assms
  by (auto simp: verification_update_type_def split: option.splits if_splits)

lemma unique_match_is_found:
  assumes "unique_target_type vs" "find (target_type ty tg) vs = Some v" "w \<in> set vs"
  shows "target_type ty tg w \<longleftrightarrow> w = v"
proof
  assume "target_type ty tg w"
  with assms(3) have "w \<in> set (filter (target_type ty tg) vs)" by simp
  with unique_find_filter [OF assms(1,2)] show "w = v" by simp
next
  assume "w = v"
  with find_Some_mem [OF assms(2)] show "target_type ty tg w" by simp
qed

lemma find_after_retype:
  "find (target_type new tg) vs = None \<Longrightarrow> find (target_type ty tg) vs = Some v \<Longrightarrow>
   find (target_type new tg) (map (\<lambda>w. if target_type ty tg w then w \<lparr> v_type := new \<rparr> else w) vs)
     = Some (v \<lparr> v_type := new \<rparr>)"
  by (induction vs) (auto simp: target_type_def split: if_splits)

lemma find_old_after_retype:
  "new \<noteq> ty \<Longrightarrow>
   find (target_type ty tg) (map (\<lambda>w. if target_type ty tg w then w \<lparr> v_type := new \<rparr> else w) vs) = None"
  by (induction vs) (auto simp: target_type_def)

lemma verify_action_success:
  assumes "two_factor_verify_action read valid req d = (Inr (Redirect_toast url ty ti de), d')"
  shows "\<exists>userId vs. r_userId req = Some userId \<and>
           verification_update_type twoFAVerifyVerificationType userId twoFAVerificationType
             (verifications d) = Inr vs \<and> d' = d \<lparr> verifications := vs \<rparr>"
  using assms
  by (auto simp: two_factor_verify_action_def
      split: option.splits sum.splits submission.splits intent.splits)

text \<open>The unique key is kept by the retyping update and so by the whole verify action.\<close>

lemma update_type_unique:
  assumes "unique_target_type vs" "verification_update_type ty tg new vs = Inr vs'"
  shows "unique_target_type vs'"
proof -
  let ?k = "\<lambda>v. (v_target v, v_type v)"
  let ?f = "\<lambda>v. if target_type ty tg v then v \<lparr> v_type := new \<rparr> else v"
  let ?g = "\<lambda>key. if key = (tg, ty) then (tg, new) else key"
  have vs': "vs' = map ?f vs" by (rule update_type_Inr(1) [OF assms(2)])
  have kf: "map ?k (map ?f vs) = map ?g (map ?k vs)"
    by (auto simp: target_type_def)
  have free: "new \<noteq> ty \<Longrightarrow> (tg, new) \<notin> set (map ?k vs)"
    using update_type_Inr(3) [OF assms(2)]
    by (auto simp: find_None_iff target_type_def)
  have "inj_on ?g (set (map ?k vs))"
  proof (cases "new = ty")
    case True
    then show ?thesis by (auto simp: inj_on_def)
  next
    case False
    from free [OF False] show ?thesis
      by (fastforce simp: inj_on_def image_iff split: if_splits)
  qed
  with assms(1) have "distinct (map ?g (map ?k vs))"
    unfolding unique_target_type_def by (simp only: distinct_map)
  then show ?thesis unfolding vs' unique_target_type_def kf .
qed

lemma verify_action_unique:
  "unique_target_type (verifications d) \<Longrightarrow>
   unique_target_type (verifications (snd (two_factor_verify_action read valid req d)))"
  by (auto simp: two_factor_verify_action_def verification_deleteMany_def unique_filter
      update_type_unique split: option.splits sum.splits submission.splits intent.splits)

text \<open>
  The action writes only on the two success paths: a reply with a status (400 for an
  "error" submission, 200 for one with a form-control intent) and a thrown value leave the
  database as it was.
\<close>

lemma verify_action_reply_frame:
  "two_factor_verify_action read valid req d = (Inr (Json reply st), d') \<Longrightarrow> d' = d"
  by (auto simp: two_factor_verify_action_def
      split: option.splits sum.splits submission.splits intent.splits)

lemma verify_action_thrown_frame:
  "two_factor_verify_action read valid req d = (Inl e, d') \<Longrightarrow> d' = d"
  by (auto simp: two_factor_verify_action_def
      split: option.splits sum.splits submission.splits intent.splits)

lemma verify_action_intent_reply:
  "r_userId req = Some userId \<Longrightarrow> read (r_formData req) = Some ctx \<Longrightarrow>
   sc_intent ctx \<Longrightarrow>
   two_factor_verify_action read valid req d = (Inr (Json Intent_reply 200), d)"
  by (simp add: two_factor_verify_action_def parseWithZod_def)

text \<open>
  Claim C1. When a user has a pending row (2fa-verify, user id) and the verify action
  answers with the success redirect, the table keeps its length, the pending row is
  replaced in place by the same row with type 2fa and nothing else changes, and the loader
  of the index route then reports two-factor authentication as enabled.
\<close>

theorem verify_success_retypes_record:
  assumes uniq: "unique_target_type (verifications d)"
    and user: "r_userId req = Some userId"
    and pending: "verification_findUnique twoFAVerifyVerificationType userId (verifications d) = Some v"
    and success: "two_factor_verify_action read valid req d = (Inr (Redirect_toast url ty ti de), d')"
  shows "d' = d \<lparr> verifications :=
                   map (\<lambda>w. if w = v then v \<lparr> v_type := twoFAVerificationType \<rparr> else w)
                     (verifications d) \<rparr> \<and>
         length (verifications d') = length (verifications d) \<and>
         verification_findUnique twoFAVerificationType userId (verifications d')
           = Some (v \<lparr> v_type := twoFAVerificationType \<rparr>) \<and>
         two_factor_loader req d' = Inr (Json (Is2FAEnabled True) 200)"
proof -
  let ?old = twoFAVerifyVerificationType and ?new = twoFAVerificationType
  let ?f = "\<lambda>w. if target_type ?old userId w then w \<lparr> v_type := ?new \<rparr> else w"
  from verify_action_success [OF success] user obtain vs where
    upd: "verification_update_type ?old userId ?new (verifications d) = Inr vs"
    and d': "d' = d \<lparr> verifications := vs \<rparr>"
    by auto
  from pending have found: "find (target_type ?old userId) (verifications d) = Some v"
    by (simp add: verification_findUnique_def)
  have vs: "vs = map ?f (verifications d)"
    by (rule update_type_Inr(1) [OF upd])
  have free: "find (target_type ?new userId) (verifications d) = None"
    using update_type_Inr(3) [OF upd] twoFA_types_differ by simp
  have "map ?f (verifications d) =
        map (\<lambda>w. if w = v then v \<lparr> v_type := ?new \<rparr> else w) (verifications d)"
    using unique_match_is_found [OF uniq found] by (intro map_cong) auto
  with vs d' have 1: "d' = d \<lparr> verifications :=
      map (\<lambda>w. if w = v then v \<lparr> v_type := ?new \<rparr> else w) (verifications d) \<rparr>"
    by simp
  have 2: "length (verifications d') = length (verifications d)"
    using vs d' by simp
  have 3: "verification_findUnique ?new userId (verifications d') = Some (v \<lparr> v_type := ?new \<rparr>)"
    using find_after_retype [OF free found] vs d' by (simp add: verification_findUnique_def)
  have 4: "two_factor_loader req d' = Inr (Json (Is2FAEnabled True) 200)"
    using 3 user by (simp add: two_factor_loader_def)
  from 1 2 3 4 show ?thesis by blast
qed

lemma parse_verify_invalid:
  assumes "\<not> sc_intent ctx"
    and "sc_payload ctx ''intent'' = Text ''verify''"
    and "sc_payload ctx ''code'' = Text code" "code \<noteq> []"
    and "\<not> ok code"
  shows "\<exists>issues.
           parseWithZod ctx (superRefine (refine_code ok) (ActionSchema (sc_payload ctx)))
             = Error issues \<and>
           Issue ''code'' (Custom ''Invalid code'') \<in> set issues \<and>
           (length code = 6 \<longrightarrow> issues = [Issue ''code'' (Custom ''Invalid code'')])"
  using assms
  by (simp add: parseWithZod_def superRefine_def refine_code_def ActionSchema_def coerce_def)

lemma verify_invalid_reply:
  assumes "r_userId req = Some userId"
    and "read (r_formData req) = Some ctx" "\<not> sc_intent ctx"
    and "sc_payload ctx ''intent'' = Text ''verify''"
    and "sc_payload ctx ''code'' = Text code" "code \<noteq> []"
    and "\<not> valid d code twoFAVerifyVerificationType userId"
  shows "\<exists>issues. two_factor_verify_action read valid req d = (Inr (Json (Reply issues) 400), d) \<and>
           Issue ''code'' (Custom ''Invalid code'') \<in> set issues \<and>
           (length code = 6 \<longrightarrow> issues = [Issue ''code'' (Custom ''Invalid code'')])"
proof -
  from parse_verify_invalid [OF assms(3-6),
      of "\<lambda>c. valid d c twoFAVerifyVerificationType userId"] assms(7)
  obtain issues where i:
    "parseWithZod ctx
       (superRefine (refine_code (\<lambda>c. valid d c twoFAVerifyVerificationType userId))
          (ActionSchema (sc_payload ctx))) = Error issues"
    "Issue ''code'' (Custom ''Invalid code'') \<in> set issues"
    "length code = 6 \<longrightarrow> issues = [Issue ''code'' (Custom ''Invalid code'')]"
    by blast
  from i(1) assms(1,2)
  have "two_factor_verify_action read valid req d = (Inr (Json (Reply issues) 400), d)"
    by (simp add: two_factor_verify_action_def)
  with i(2,3) show ?thesis by blast
qed

text \<open>
  Claim C4. A verify submission (the intent "verify" and a code, each submitted once as
  a non-empty string, without a form-control intent) whose code the validator rejects is
  answered with status 400 and the issue "Invalid code" on the code field; the database is
  returned as it was, so the row is still there, unaltered, and the validator answers
  every code as before.
\<close>

theorem wrong_code_keeps_record:
  assumes "r_userId req = Some userId"
    and "read (r_formData req) = Some ctx" "\<not> sc_intent ctx"
    and "sc_payload ctx ''intent'' = Text ''verify''"
    and "sc_payload ctx ''code'' = Text code" "code \<noteq> []"
    and "\<not> valid d code twoFAVerifyVerificationType userId"
  shows "(\<exists>issues. two_factor_verify_action read valid req d = (Inr (Json (Reply issues) 400), d) \<and>
           Issue ''code'' (Custom ''Invalid code'') \<in> set issues \<and>
           (length code = 6 \<longrightarrow> issues = [Issue ''code'' (Custom ''Invalid code'')])) \<and>
         verifications (snd (two_factor_verify_action read valid req d)) = verifications d \<and>
         valid (snd (two_factor_verify_action read valid req d)) = valid d"
proof -
  from verify_invalid_reply [where read = read and valid = valid and d = d, OF assms] obtain issues where
    "two_factor_verify_action read valid req d = (Inr (Json (Reply issues) 400), d)"
    "Issue ''code'' (Custom ''Invalid code'') \<in> set issues"
    "length code = 6 \<longrightarrow> issues = [Issue ''code'' (Custom ''Invalid code'')]"
    by blast
  then show ?thesis by auto
qed

lemma deleteMany_find: "find (target_type ty tg) (verification_deleteMany ty tg vs) = None"
  by (simp add: verification_deleteMany_def find_None_iff)

lemma deleteMany_absent:
  "find (target_type ty tg) vs = None \<Longrightarrow> verification_deleteMany ty tg vs = vs"
  by (simp add: verification_deleteMany_def find_None_iff)

lemma deleteMany_idem:
  "verification_deleteMany ty tg (verification_deleteMany ty tg vs) = verification_deleteMany ty tg vs"
  by (simp add: verification_deleteMany_def)

lemma cancel_action:
  assumes "r_userId req = Some userId"
    and "read (r_formData req) = Some ctx" "\<not> sc_intent ctx"
    and "sc_payload ctx ''intent'' = Text ''cancel''"
  shows "two_factor_verify_action read valid req d =
           (Inr (Redirect ''/settings/profile/two-factor''),
            d \<lparr> verifications :=
                  verification_deleteMany twoFAVerifyVerificationType userId (verifications d) \<rparr>)"
  using assms
  by (simp add: two_factor_verify_action_def parseWithZod_def superRefine_def refine_code_def
      ActionSchema_def coerce_def)

text \<open>
  Claim C5. A cancel submission (the intent "cancel" submitted once, without a
  form-control intent) deletes the rows for (2fa-verify, user id) without asking the
  validator and answers with the redirect; with no such row the database is unchanged and
  the answer is the same; cancelling twice leaves what cancelling once leaves. The store
  operation behind it is idempotent for every (type, target).
\<close>

theorem cancel_deletes_and_is_idempotent:
  assumes "r_userId req = Some userId"
    and "read (r_formData req) = Some ctx" "\<not> sc_intent ctx"
    and "sc_payload ctx ''intent'' = Text ''cancel''"
  shows "two_factor_verify_action read valid req d =
           (Inr (Redirect ''/settings/profile/two-factor''),
            d \<lparr> verifications :=
                  verification_deleteMany twoFAVerifyVerificationType userId (verifications d) \<rparr>) \<and>
         verification_findUnique twoFAVerifyVerificationType userId
           (verifications (snd (two_factor_verify_action read valid req d))) = None \<and>
         (verification_findUnique twoFAVerifyVerificationType userId (verifications d) = None \<longrightarrow>
            two_factor_verify_action read valid req d
              = (Inr (Redirect ''/settings/profile/two-factor''), d)) \<and>
         two_factor_verify_action read valid req (snd (two_factor_verify_action read valid req d)) =
           two_factor_verify_action read valid req d \<and>
         verification_deleteMany ty tg (verification_deleteMany ty tg vs) = verification_deleteMany ty tg vs \<and>
         verification_findUnique ty tg (verification_deleteMany ty tg vs) = None"
  by (simp add: cancel_action [where read = read, OF assms] deleteMany_find deleteMany_absent deleteMany_idem
        verification_findUnique_def)

lemma isCodeValid_absent:
  "verification_findUnique ty tg (verifications d) = None \<Longrightarrow> \<not> isCodeValid hm skew now d code ty tg"
  by (simp add: isCodeValid_def isValid_def)

lemma verify_action_success_form:
  assumes "two_factor_verify_action read valid req d = (Inr (Redirect_toast url ty ti de), d')"
    and "read (r_formData req) = Some ctx"
    and "sc_payload ctx ''code'' = Text code"
  shows "length code = 6"
  using assms
  by (auto simp: two_factor_verify_action_def parseWithZod_def superRefine_def refine_code_def
      ActionSchema_def coerce_def
      split: option.splits sum.splits intent.splits if_splits form_value.splits)

text \<open>
  Claim C3, as amended. With no row for (2fa-verify, user id), a verify submission (the
  intent "verify" and a code, each submitted once, without a form-control intent) of any
  non-empty code is answered with status 400 and the issue "Invalid code" on the code field, the
  answer a wrong code gets, and the database is unchanged; after a successful verify
  submission a second submission of the same code is answered that way too.
\<close>

theorem absent_record_fails_as_invalid_code:
  assumes user: "r_userId req = Some userId"
    and form: "read (r_formData req) = Some ctx" "\<not> sc_intent ctx"
    and intent: "sc_payload ctx ''intent'' = Text ''verify''"
    and code: "sc_payload ctx ''code'' = Text code" "code \<noteq> []"
  shows "(verification_findUnique twoFAVerifyVerificationType userId (verifications d) = None \<longrightarrow>
           (\<exists>issues. two_factor_verify_action read (isCodeValid hm skew now) req d
                        = (Inr (Json (Reply issues) 400), d) \<and>
              Issue ''code'' (Custom ''Invalid code'') \<in> set issues \<and>
              (length code = 6 \<longrightarrow> issues = [Issue ''code'' (Custom ''Invalid code'')]))) \<and>
         (\<forall>url ty ti de d'.
            two_factor_verify_action read (isCodeValid hm skew now) req d
              = (Inr (Redirect_toast url ty ti de), d') \<longrightarrow>
            two_factor_verify_action read (isCodeValid hm skew now') req d'
              = (Inr (Json (Reply [Issue ''code'' (Custom ''Invalid code'')]) 400), d'))"
proof (intro conjI impI allI)
  assume "verification_findUnique twoFAVerifyVerificationType userId (verifications d) = None"
  then have "\<not> isCodeValid hm skew now d code twoFAVerifyVerificationType userId"
    by (rule isCodeValid_absent)
  then show "\<exists>issues. two_factor_verify_action read (isCodeValid hm skew now) req d
                        = (Inr (Json (Reply issues) 400), d) \<and>
              Issue ''code'' (Custom ''Invalid code'') \<in> set issues \<and>
              (length code = 6 \<longrightarrow> issues = [Issue ''code'' (Custom ''Invalid code'')])"
    using verify_invalid_reply [where read = read and valid = "isCodeValid hm skew now" and d = d,
        OF user form intent code]
    by blast
next
  fix url ty ti de d'
  assume s: "two_factor_verify_action read (isCodeValid hm skew now) req d
              = (Inr (Redirect_toast url ty ti de), d')"
  from verify_action_success [OF s] user obtain vs where
    upd: "verification_update_type twoFAVerifyVerificationType userId twoFAVerificationType
            (verifications d) = Inr vs" and d': "d' = d \<lparr> verifications := vs \<rparr>"
    by auto
  have "find (target_type twoFAVerifyVerificationType userId) vs = None"
    unfolding update_type_Inr(1) [OF upd]
    using twoFA_types_differ by (intro find_old_after_retype) simp
  with d' have gone: "verification_findUnique twoFAVerifyVerificationType userId (verifications d') = None"
    by (simp add: verification_findUnique_def)
  have len: "length code = 6"
    by (rule verify_action_success_form [where read = read, OF s form(1) code(1)])
  from gone have "\<not> isCodeValid hm skew now' d' code twoFAVerifyVerificationType userId"
    by (rule isCodeValid_absent)
  from verify_invalid_reply [where read = read and valid = "isCodeValid hm skew now'" and d = d',
      OF user form intent code this] len
  show "two_factor_verify_action read (isCodeValid hm skew now') req d'
              = (Inr (Json (Reply [Issue ''code'' (Custom ''Invalid code'')]) 400), d')"
    by auto
qed

text \<open>
  Claim C9. Without a session id in the auth cookie the action throws and deletes nothing.
  With a session id it keeps, in order, every session of another user and the session
  with that id, removes the other sessions of the user, and leaves the other tables as
  they were.
\<close>

theorem sign_out_deletes_other_sessions:
  "(r_sessionId req = None \<longrightarrow>
      signOutOfSessionsAction req userId d =
        (Inl (Response_thrown ''You must be authenticated to sign out of other sessions'' 400), d)) \<and>
   (\<forall>sessionId. r_sessionId req = Some sessionId \<and> sessionId \<noteq> [] \<longrightarrow>
      signOutOfSessionsAction req userId d =
        (Inr (Json (Status ''success'') 200),
         d \<lparr> sessions := filter (\<lambda>s. s_userId s \<noteq> userId \<or> s_id s = sessionId) (sessions d) \<rparr>))"
  by (simp add: signOutOfSessionsAction_def session_deleteMany_def)


lemma userCanDelete_iff:
  "userCanDeleteConnections userId d \<longleftrightarrow>
     find (\<lambda>u. u_id u = userId) (users d) \<noteq> None \<and>
     (has_password userId d \<or> 1 < count_connections userId d)"
  by (auto simp: userCanDeleteConnections_def split: option.splits)

text \<open>
  Claim C10. The delete-connection action changes the connection table only for a user who
  has a password or more than one connection; for a user with no password and at most one
  connection it throws a response with status 400 and leaves the database as it was.
\<close>

theorem delete_connection_needs_password_or_other_connection:
  assumes "r_userId req = Some userId"
  shows "(connections (snd (connections_action req d)) \<noteq> connections d \<longrightarrow>
            has_password userId d \<or> 1 < count_connections userId d) \<and>
         (\<not> has_password userId d \<and> count_connections userId d \<le> 1 \<longrightarrow>
            snd (connections_action req d) = d \<and>
            (\<exists>message. fst (connections_action req d) = Inl (Response_thrown message 400)) \<and>
            (formData_get (r_formData req) ''intent'' = Some ''delete-connection'' \<longrightarrow>
               fst (connections_action req d) =
                 Inl (Response_thrown
                   ''You cannot delete your last connection unless you have a password.'' 400)))"
  using assms
  by (auto simp: connections_action_def userCanDelete_iff split: option.splits sum.splits)

subsection \<open>The properties on the sample data\<close>

lemma decimal_numeral:
  "decimal (numeral k) n = decimal (pred_numeral k) (n div 10) @ [digit_char n]"
proof -
  have "decimal (numeral k) n = decimal (Suc (pred_numeral k)) n"
    by (simp only: numeral_eq_Suc)
  then show ?thesis by (simp only: decimal.simps)
qed


lemma sample_code: "totp_code sample_hmac ''SHA1'' ''JBSWY3DPEHPK3PXP'' 6 0 = ''000016''"
  by (simp add: totp_code_def sample_hmac_def digit_char_def decimal_numeral)

lemma sample_valid:
  "isCodeValid sample_hmac False 10 pending_db ''000016'' ''2fa-verify'' ''user-42''"
  by (simp add: isCodeValid_def isValid_def expired_def code_matches_def pending_db_def
      pending_row_def verification_findUnique_def target_type_def tolerated_windows_def
      time_window_def sample_code)


lemma sample_user: "r_userId (sample_request form) = Some ''user-42''"
  by (simp add: sample_request_def)


theorem enable_discards_otp_witness:
  "r_userId (sample_request []) = Some ''user-42'' \<and>
   two_factor_action (sample_request []) (sample_totp \<lparr> otp := ''999999'' \<rparr>) ''verification-1'' 0 sample_db
     = two_factor_action (sample_request []) sample_totp ''verification-1'' 0 sample_db \<and>
   verifications (snd (two_factor_action (sample_request []) sample_totp ''verification-1'' 0 sample_db))
     = [pending_row]"
proof -
  have r: "r_userId (sample_request []) = Some ''user-42''" by (rule sample_user)
  have v: "verifications (snd (two_factor_action (sample_request []) sample_totp ''verification-1'' 0 sample_db))
     = [pending_row]"
    by (simp add: two_factor_action_def sample_request_def sample_db_def verification_upsert_def
        create_row_def verificationData_def config_of_def totp_config.truncate_def sample_totp_def
        pending_row_def twoFAVerifyVerificationType_def)
  from enable_discards_otp [OF r, where g = sample_totp and x = "''999999''"
      and new_id = "''verification-1''" and now = 0 and d = sample_db] r v
  show ?thesis by blast
qed

theorem enable_repeated_one_record_witness:
  "unique_target_type (verifications sample_db) \<and>
   r_userId (sample_request []) = Some ''user-42'' \<and>
   [(sample_totp, ''verification-1'', 0::int), (other_totp, ''verification-2'', 60)] \<noteq> [] \<and>
   length (filter (target_type twoFAVerifyVerificationType ''user-42'')
     (verifications (two_factor_actions (sample_request [])
        [(sample_totp, ''verification-1'', 0::int), (other_totp, ''verification-2'', 60)] sample_db))) = 1 \<and>
   verifications (two_factor_actions (sample_request [])
        [(sample_totp, ''verification-1'', 0::int), (other_totp, ''verification-2'', 60)] sample_db)
     = [pending_row \<lparr> v_secret := ''KRSXG5CTMVRXEZLU'' \<rparr>]"
proof -
  let ?es = "[(sample_totp, ''verification-1'', 0::int), (other_totp, ''verification-2'', 60)]"
  have u: "unique_target_type (verifications sample_db)"
    by (simp add: unique_target_type_def sample_db_def)
  have r: "r_userId (sample_request []) = Some ''user-42''" by (rule sample_user)
  have n: "?es \<noteq> []" by simp
  have v: "verifications (two_factor_actions (sample_request []) ?es sample_db)
     = [pending_row \<lparr> v_secret := ''KRSXG5CTMVRXEZLU'' \<rparr>]"
    by (simp add: two_factor_action_def sample_request_def sample_db_def verification_upsert_def
        create_row_def update_row_def verificationData_def config_of_def totp_config.truncate_def
        sample_totp_def other_totp_def pending_row_def twoFAVerifyVerificationType_def target_type_def)
  from enable_repeated_one_record [OF u r n] have
    "length (filter (target_type twoFAVerifyVerificationType ''user-42'')
       (verifications (two_factor_actions (sample_request []) ?es sample_db))) = 1"
    by blast
  with u r n v show ?thesis by blast
qed

lemma sample_read: "sample_reader (r_formData (sample_request form)) = Some (sample_context form)"
  by (simp add: sample_reader_def sample_request_def)

lemma verify_form_context:
  "\<not> sc_intent (sample_context (verify_form code))"
  "sc_payload (sample_context (verify_form code)) ''intent'' = Text ''verify''"
  "sc_payload (sample_context (verify_form code)) ''code'' = Text code"
  by (simp_all add: sample_context_def verify_form_def)

lemma sample_absent:
  "verification_findUnique twoFAVerifyVerificationType ''user-42'' (verifications sample_db) = None"
  by (simp add: verification_findUnique_def sample_db_def)

lemma sample_pending:
  "verification_findUnique twoFAVerifyVerificationType ''user-42'' (verifications pending_db)
     = Some pending_row"
  by (simp add: verification_findUnique_def pending_db_def pending_row_def target_type_def
      twoFAVerifyVerificationType_def)

lemma sample_wrong:
  "\<not> isCodeValid sample_hmac False 10 pending_db ''123456'' twoFAVerifyVerificationType ''user-42''"
  by (simp add: isCodeValid_def isValid_def sample_pending code_matches_def pending_row_def
      tolerated_windows_def time_window_def sample_code)

lemma sample_success:
  "two_factor_verify_action sample_reader (isCodeValid sample_hmac False 10)
       (sample_request (verify_form ''000016'')) pending_db
     = (Inr (Redirect_toast ''/settings/profile/two-factor'' ''success'' ''Enabled''
               ''Two-factor authentication has been enabled.''), enabled_db)"
proof -
  have "parseWithZod (sample_context (verify_form ''000016''))
          (superRefine
             (refine_code (\<lambda>code. isCodeValid sample_hmac False 10 pending_db code
                                    twoFAVerifyVerificationType ''user-42''))
             (ActionSchema (sc_payload (sample_context (verify_form ''000016'')))))
        = Success (Verify ''000016'')"
    using sample_valid
    by (simp add: parseWithZod_def superRefine_def refine_code_def ActionSchema_def coerce_def
        verify_form_context twoFAVerifyVerificationType_def)
  then show ?thesis
    by (simp add: two_factor_verify_action_def sample_user sample_read
        twoFAVerifyVerificationType_def twoFAVerificationType_def
        verification_update_type_def pending_db_def pending_row_def target_type_def enabled_db_def)
qed

theorem verify_success_retypes_record_witness:
  "unique_target_type (verifications pending_db) \<and>
   r_userId (sample_request (verify_form ''000016'')) = Some ''user-42'' \<and>
   verification_findUnique twoFAVerifyVerificationType ''user-42'' (verifications pending_db)
     = Some pending_row \<and>
   two_factor_verify_action sample_reader (isCodeValid sample_hmac False 10)
       (sample_request (verify_form ''000016'')) pending_db
     = (Inr (Redirect_toast ''/settings/profile/two-factor'' ''success'' ''Enabled''
               ''Two-factor authentication has been enabled.''), enabled_db) \<and>
   enabled_db = sample_db \<lparr> verifications := [pending_row \<lparr> v_type := ''2fa'' \<rparr>] \<rparr> \<and>
   two_factor_loader (sample_request (verify_form ''000016'')) enabled_db
     = Inr (Json (Is2FAEnabled True) 200)"
proof -
  have u: "unique_target_type (verifications pending_db)"
    by (simp add: unique_target_type_def pending_db_def)
  note r = sample_user [of "verify_form ''000016''"]
  from verify_success_retypes_record [OF u r sample_pending sample_success]
  have "two_factor_loader (sample_request (verify_form ''000016'')) enabled_db
     = Inr (Json (Is2FAEnabled True) 200)"
    by blast
  with u r sample_pending sample_success show ?thesis by (simp add: enabled_db_def)
qed

text \<open>
  A name submitted twice reaches the schema as an array and is rejected before the
  refinement runs; a form with a form-control intent is answered with status 200. Neither
  writes.
\<close>

lemma repeated_intent_is_rejected:
  "two_factor_verify_action sample_reader valid
       (sample_request [(''intent'', ''cancel''), (''intent'', ''cancel'')]) pending_db
     = (Inr (Json (Reply [Issue ''intent'' Invalid_discriminator]) 400), pending_db)"
  by (simp add: two_factor_verify_action_def sample_user sample_read sample_context_def
      parseWithZod_def superRefine_def ActionSchema_def coerce_def)

lemma repeated_code_is_rejected:
  "two_factor_verify_action sample_reader valid
       (sample_request [(''intent'', ''verify''), (''code'', ''123456''), (''code'', ''123456'')])
       pending_db
     = (Inr (Json (Reply [Issue ''code'' Invalid_value]) 400), pending_db)"
  by (simp add: two_factor_verify_action_def sample_user sample_read sample_context_def
      parseWithZod_def superRefine_def ActionSchema_def coerce_def)

lemma form_control_intent_replies_200:
  "two_factor_verify_action sample_reader valid
       (sample_request ((''__intent__'', control) # verify_form ''123456'')) pending_db
     = (Inr (Json Intent_reply 200), pending_db)"
  by (simp add: two_factor_verify_action_def sample_user sample_read sample_context_def
      parseWithZod_def)

theorem wrong_code_keeps_record_witness:
  "r_userId (sample_request (verify_form ''123456'')) = Some ''user-42'' \<and>
   sample_reader (r_formData (sample_request (verify_form ''123456'')))
     = Some (sample_context (verify_form ''123456'')) \<and>
   \<not> sc_intent (sample_context (verify_form ''123456'')) \<and>
   sc_payload (sample_context (verify_form ''123456'')) ''intent'' = Text ''verify'' \<and>
   sc_payload (sample_context (verify_form ''123456'')) ''code'' = Text ''123456'' \<and>
   ''123456'' \<noteq> [] \<and>
   \<not> isCodeValid sample_hmac False 10 pending_db ''123456'' twoFAVerifyVerificationType ''user-42'' \<and>
   two_factor_verify_action sample_reader (isCodeValid sample_hmac False 10)
       (sample_request (verify_form ''123456'')) pending_db = (Inr invalid_code_reply, pending_db)"
proof -
  have n: "''123456'' \<noteq> []" by simp
  note h = sample_user [of "verify_form ''123456''"] sample_read [of "verify_form ''123456''"]
    verify_form_context [of "''123456''"] n sample_wrong
  from wrong_code_keeps_record [where read = sample_reader
      and valid = "isCodeValid sample_hmac False 10" and d = pending_db, OF h]
  have "two_factor_verify_action sample_reader (isCodeValid sample_hmac False 10)
       (sample_request (verify_form ''123456'')) pending_db = (Inr invalid_code_reply, pending_db)"
    by (auto simp: invalid_code_reply_def)
  with h show ?thesis by blast
qed

theorem absent_record_fails_as_invalid_code_witness:
  "r_userId (sample_request (verify_form ''000016'')) = Some ''user-42'' \<and>
   sample_reader (r_formData (sample_request (verify_form ''000016'')))
     = Some (sample_context (verify_form ''000016'')) \<and>
   \<not> sc_intent (sample_context (verify_form ''000016'')) \<and>
   sc_payload (sample_context (verify_form ''000016'')) ''intent'' = Text ''verify'' \<and>
   sc_payload (sample_context (verify_form ''000016'')) ''code'' = Text ''000016'' \<and>
   ''000016'' \<noteq> [] \<and>
   verification_findUnique twoFAVerifyVerificationType ''user-42'' (verifications sample_db) = None \<and>
   two_factor_verify_action sample_reader (isCodeValid sample_hmac False 10)
       (sample_request (verify_form ''000016'')) sample_db = (Inr invalid_code_reply, sample_db) \<and>
   two_factor_verify_action sample_reader (isCodeValid sample_hmac False 10)
       (sample_request (verify_form ''000016'')) pending_db
     = (Inr (Redirect_toast ''/settings/profile/two-factor'' ''success'' ''Enabled''
               ''Two-factor authentication has been enabled.''), enabled_db) \<and>
   two_factor_verify_action sample_reader (isCodeValid sample_hmac False 12)
       (sample_request (verify_form ''000016'')) enabled_db = (Inr invalid_code_reply, enabled_db)"
proof -
  have n: "''000016'' \<noteq> []" by simp
  note h = sample_user [of "verify_form ''000016''"] sample_read [of "verify_form ''000016''"]
    verify_form_context [of "''000016''"] n
  from absent_record_fails_as_invalid_code [where read = sample_reader and d = sample_db
      and hm = sample_hmac and skew = False and now = 10 and now' = 12, OF h] sample_absent
  have 1: "two_factor_verify_action sample_reader (isCodeValid sample_hmac False 10)
       (sample_request (verify_form ''000016'')) sample_db = (Inr invalid_code_reply, sample_db)"
    by (auto simp: invalid_code_reply_def)
  from absent_record_fails_as_invalid_code [where read = sample_reader and d = pending_db
      and hm = sample_hmac and skew = False and now = 10 and now' = 12, OF h] sample_success
  have 2: "two_factor_verify_action sample_reader (isCodeValid sample_hmac False 12)
       (sample_request (verify_form ''000016'')) enabled_db = (Inr invalid_code_reply, enabled_db)"
    unfolding invalid_code_reply_def by blast
  from h sample_absent 1 sample_success 2 show ?thesis by blast
qed

text \<open>
  Claim C3 as stated fails: with no row the answer is not a separate not-found error but
  the reply a wrong code gets against a pending row, status 400 with "Invalid code".
\<close>

theorem absent_record_not_found_counterexample:
  "two_factor_verify_action sample_reader (isCodeValid sample_hmac False 10)
       (sample_request (verify_form ''000016'')) sample_db
     = (Inr (Json (Reply [Issue ''code'' (Custom ''Invalid code'')]) 400), sample_db) \<and>
   two_factor_verify_action sample_reader (isCodeValid sample_hmac False 10)
       (sample_request (verify_form ''123456'')) pending_db
     = (Inr (Json (Reply [Issue ''code'' (Custom ''Invalid code'')]) 400), pending_db)"
proof
  have "\<not> isCodeValid sample_hmac False 10 sample_db ''000016'' twoFAVerifyVerificationType ''user-42''"
    by (simp add: isCodeValid_def isValid_def sample_absent)
  then show "two_factor_verify_action sample_reader (isCodeValid sample_hmac False 10)
       (sample_request (verify_form ''000016'')) sample_db
     = (Inr (Json (Reply [Issue ''code'' (Custom ''Invalid code'')]) 400), sample_db)"
    by (simp add: two_factor_verify_action_def sample_user sample_read verify_form_context
        parseWithZod_def superRefine_def refine_code_def ActionSchema_def coerce_def)
  from sample_wrong show "two_factor_verify_action sample_reader (isCodeValid sample_hmac False 10)
       (sample_request (verify_form ''123456'')) pending_db
     = (Inr (Json (Reply [Issue ''code'' (Custom ''Invalid code'')]) 400), pending_db)"
    by (simp add: two_factor_verify_action_def sample_user sample_read verify_form_context
        parseWithZod_def superRefine_def refine_code_def ActionSchema_def coerce_def)
qed

lemma cancel_form_context:
  "\<not> sc_intent (sample_context cancel_form)"
  "sc_payload (sample_context cancel_form) ''intent'' = Text ''cancel''"
  by (simp_all add: sample_context_def cancel_form_def)

theorem cancel_deletes_and_is_idempotent_witness:
  "r_userId (sample_request cancel_form) = Some ''user-42'' \<and>
   sample_reader (r_formData (sample_request cancel_form)) = Some (sample_context cancel_form) \<and>
   \<not> sc_intent (sample_context cancel_form) \<and>
   sc_payload (sample_context cancel_form) ''intent'' = Text ''cancel'' \<and>
   two_factor_verify_action sample_reader (isCodeValid sample_hmac False 10)
       (sample_request cancel_form) pending_db
     = (Inr (Redirect ''/settings/profile/two-factor''), sample_db) \<and>
   verification_findUnique twoFAVerifyVerificationType ''user-42'' (verifications sample_db) = None \<and>
   two_factor_verify_action sample_reader (isCodeValid sample_hmac False 10)
       (sample_request cancel_form) sample_db
     = (Inr (Redirect ''/settings/profile/two-factor''), sample_db)"
proof -
  note h = sample_user [of cancel_form] sample_read [of cancel_form] cancel_form_context
  have e: "pending_db \<lparr> verifications :=
             verification_deleteMany twoFAVerifyVerificationType ''user-42'' (verifications pending_db) \<rparr>
           = sample_db"
    by (simp add: pending_db_def verification_deleteMany_def pending_row_def target_type_def
        twoFAVerifyVerificationType_def sample_db_def)
  from cancel_deletes_and_is_idempotent [where read = sample_reader
      and valid = "isCodeValid sample_hmac False 10" and d = pending_db, OF h] e
  have 1: "two_factor_verify_action sample_reader (isCodeValid sample_hmac False 10)
       (sample_request cancel_form) pending_db
     = (Inr (Redirect ''/settings/profile/two-factor''), sample_db)"
    by simp
  from cancel_deletes_and_is_idempotent [where read = sample_reader
      and valid = "isCodeValid sample_hmac False 10" and d = sample_db, OF h] sample_absent
  have 2: "two_factor_verify_action sample_reader (isCodeValid sample_hmac False 10)
       (sample_request cancel_form) sample_db
     = (Inr (Redirect ''/settings/profile/two-factor''), sample_db)"
    by blast
  from h 1 2 sample_absent show ?thesis by blast
qed

theorem sign_out_deletes_other_sessions_witness:
  "r_sessionId cookieless_request = None \<and>
   signOutOfSessionsAction cookieless_request ''user-42'' sample_db =
     (Inl (Response_thrown ''You must be authenticated to sign out of other sessions'' 400), sample_db) \<and>
   r_sessionId (sample_request []) = Some ''session-1'' \<and> ''session-1'' \<noteq> [] \<and>
   sessions (snd (signOutOfSessionsAction (sample_request []) ''user-42'' sample_db)) =
     [\<lparr> s_id = ''session-1'', s_userId = ''user-42'', s_expirationDate = 2592000 \<rparr>,
      \<lparr> s_id = ''session-3'', s_userId = ''user-7'', s_expirationDate = 2592000 \<rparr>]"
proof -
  have a: "r_sessionId cookieless_request = None" by (simp add: cookieless_request_def)
  have s: "r_sessionId (sample_request []) = Some ''session-1'' \<and> ''session-1'' \<noteq> []"
    by (simp add: sample_request_def)
  from sign_out_deletes_other_sessions [of cookieless_request "''user-42''" sample_db] a
  have 1: "signOutOfSessionsAction cookieless_request ''user-42'' sample_db =
     (Inl (Response_thrown ''You must be authenticated to sign out of other sessions'' 400), sample_db)"
    by blast
  from sign_out_deletes_other_sessions [of "sample_request []" "''user-42''" sample_db] s
  have "signOutOfSessionsAction (sample_request []) ''user-42'' sample_db =
        (Inr (Json (Status ''success'') 200),
         sample_db \<lparr> sessions := filter (\<lambda>s. s_userId s \<noteq> ''user-42'' \<or> s_id s = ''session-1'')
                                    (sessions sample_db) \<rparr>)"
    by blast
  then have 2: "sessions (snd (signOutOfSessionsAction (sample_request []) ''user-42'' sample_db)) =
     [\<lparr> s_id = ''session-1'', s_userId = ''user-42'', s_expirationDate = 2592000 \<rparr>,
      \<lparr> s_id = ''session-3'', s_userId = ''user-7'', s_expirationDate = 2592000 \<rparr>]"
    by (simp add: sample_db_def)
  from a 1 s 2 show ?thesis by blast
qed

lemma sample_counts:
  "\<not> has_password ''user-42'' sample_db" "count_connections ''user-42'' sample_db = 1"
  "has_password ''user-7'' sample_db"
  by (simp_all add: has_password_def count_connections_def sample_db_def)

theorem delete_connection_needs_password_or_other_connection_witness:
  "r_userId (delete_connection_request ''user-42'' ''conn-1'') = Some ''user-42'' \<and>
   \<not> has_password ''user-42'' sample_db \<and> count_connections ''user-42'' sample_db \<le> 1 \<and>
   connections_action (delete_connection_request ''user-42'' ''conn-1'') sample_db =
     (Inl (Response_thrown ''You cannot delete your last connection unless you have a password.'' 400),
      sample_db) \<and>
   r_userId (delete_connection_request ''user-7'' ''conn-2'') = Some ''user-7'' \<and>
   connections (snd (connections_action (delete_connection_request ''user-7'' ''conn-2'') sample_db))
     \<noteq> connections sample_db \<and>
   has_password ''user-7'' sample_db"
proof -
  have r1: "r_userId (delete_connection_request ''user-42'' ''conn-1'') = Some ''user-42''"
    and r2: "r_userId (delete_connection_request ''user-7'' ''conn-2'') = Some ''user-7''"
    and i: "formData_get (r_formData (delete_connection_request ''user-42'' ''conn-1'')) ''intent''
              = Some ''delete-connection''"
    by (simp_all add: delete_connection_request_def formData_get_def)
  have c: "\<not> has_password ''user-42'' sample_db \<and> count_connections ''user-42'' sample_db \<le> 1"
    by (simp add: sample_counts)
  from delete_connection_needs_password_or_other_connection [OF r1, of sample_db] c i
  have 1: "connections_action (delete_connection_request ''user-42'' ''conn-1'') sample_db =
     (Inl (Response_thrown ''You cannot delete your last connection unless you have a password.'' 400),
      sample_db)"
    by (metis prod.collapse)
  have ch: "connections (snd (connections_action (delete_connection_request ''user-7'' ''conn-2'') sample_db))
     \<noteq> connections sample_db"
    by (simp add: connections_action_def delete_connection_request_def formData_get_def
        userCanDeleteConnections_def has_password_def sample_db_def connection_delete_def)
  from delete_connection_needs_password_or_other_connection [OF r2, of sample_db] ch
  have 2: "has_password ''user-7'' sample_db \<or> 1 < count_connections ''user-7'' sample_db"
    by blast
  from r1 c 1 r2 ch sample_counts(3) show ?thesis by blast
qed

lemma tolerated_set:
  "set (tolerated_windows skew c) = {k. \<bar>k - c\<bar> \<le> (if skew then 1 else 0)}"
  by (auto simp: tolerated_windows_def)

lemma code_matches_time_based:
  "v_algorithm r = Time_based hash \<Longrightarrow>
   code_matches hm skew code r now \<longleftrightarrow>
     (\<exists>k. \<bar>k - time_window now (v_period r)\<bar> \<le> (if skew then 1 else 0) \<and>
          code = totp_code hm hash (v_secret r) (v_digits r) k)"
  by (auto simp: code_matches_def tolerated_set)

lemma isValid_no_expiry:
  "v_expiresAt r = None \<Longrightarrow> isValid hm skew code (Some r) now = code_matches hm skew code r now"
  by (simp add: isValid_def expired_def)

subsection \<open>The time-based comparison\<close>

text \<open>
  Claim C7, as amended. For a time-based record the comparison accepts the code of the
  current window and, with skew tolerance, the codes of the two windows next to it, and it
  accepts nothing else: every accepted code is the code of a window at distance at most
  the tolerance, so a code derived from a window two or more periods away is rejected
  unless it is also the code of a tolerated window. For a record without \<open>expiresAt\<close>
  the validator is this comparison.
\<close>

theorem totp_validation_windows:
  assumes "v_algorithm r = Time_based hash"
  shows "code_matches hm skew
           (totp_code hm hash (v_secret r) (v_digits r) (time_window now (v_period r))) r now \<and>
         (skew \<longrightarrow>
            code_matches hm skew
              (totp_code hm hash (v_secret r) (v_digits r) (time_window now (v_period r) - 1)) r now \<and>
            code_matches hm skew
              (totp_code hm hash (v_secret r) (v_digits r) (time_window now (v_period r) + 1)) r now) \<and>
         (\<forall>code. code_matches hm skew code r now \<longrightarrow>
            (\<exists>k. \<bar>k - time_window now (v_period r)\<bar> \<le> (if skew then 1 else 0) \<and>
                 code = totp_code hm hash (v_secret r) (v_digits r) k)) \<and>
         (v_expiresAt r = None \<longrightarrow>
            (\<forall>code. isValid hm skew code (Some r) now = code_matches hm skew code r now))"
proof (intro conjI impI allI)
  let ?c = "time_window now (v_period r)"
  show "code_matches hm skew (totp_code hm hash (v_secret r) (v_digits r) ?c) r now"
    unfolding code_matches_time_based [OF assms] by (intro exI [of _ ?c]) simp
  show "code_matches hm skew (totp_code hm hash (v_secret r) (v_digits r) (?c - 1)) r now" if skew
    unfolding code_matches_time_based [OF assms] using that by (intro exI [of _ "?c - 1"]) simp
  show "code_matches hm skew (totp_code hm hash (v_secret r) (v_digits r) (?c + 1)) r now" if skew
    unfolding code_matches_time_based [OF assms] using that by (intro exI [of _ "?c + 1"]) simp
  show "\<exists>k. \<bar>k - ?c\<bar> \<le> (if skew then 1 else 0) \<and> code = totp_code hm hash (v_secret r) (v_digits r) k"
    if "code_matches hm skew code r now" for code
    using that by (simp only: code_matches_time_based [OF assms])
  show "isValid hm skew code (Some r) now = code_matches hm skew code r now"
    if "v_expiresAt r = None" for code
    using that by (rule isValid_no_expiry)
qed

text \<open>
  Codes have \<open>10 ^ digits\<close> values and there are more windows than that: whatever the
  keyed hash, two windows at least two periods apart have the same code, and at the time
  of one of them the validator accepts the code derived for the other.
\<close>

lemma totp_codes_collide:
  "\<exists>k k'. 2 \<le> \<bar>k - k'\<bar> \<and> totp_code hm hash sec n k = totp_code hm hash sec n k'"
proof -
  let ?f = "\<lambda>i::nat. hm hash sec (2 * int i) mod 10 ^ n"
  let ?A = "{0 .. (10::nat) ^ n}"
  have "?f ` ?A \<subseteq> {0 ..< 10 ^ n}" by auto
  then have "card (?f ` ?A) \<le> card {0 ..< (10::nat) ^ n}"
    by (intro card_mono) auto
  then have "card (?f ` ?A) < card ?A" by simp
  then have "\<not> inj_on ?f ?A" by (rule pigeonhole)
  then obtain i j where ij: "i \<noteq> j" "?f i = ?f j"
    by (auto simp: inj_on_def)
  then have "2 \<le> \<bar>2 * int i - 2 * int j\<bar>" by arith
  moreover from ij(2) have "totp_code hm hash sec n (2 * int i) = totp_code hm hash sec n (2 * int j)"
    by (simp add: totp_code_def)
  ultimately show ?thesis by blast
qed

lemma far_window_code_accepted:
  assumes "v_algorithm r = Time_based hash" "0 < v_period r"
  shows "\<exists>now k. 2 \<le> \<bar>k - time_window now (v_period r)\<bar> \<and>
           code_matches hm skew (totp_code hm hash (v_secret r) (v_digits r) k) r now"
proof -
  from totp_codes_collide [of hm hash "v_secret r" "v_digits r"] obtain k k' where
    k: "2 \<le> \<bar>k - k'\<bar>"
      "totp_code hm hash (v_secret r) (v_digits r) k = totp_code hm hash (v_secret r) (v_digits r) k'"
    by blast
  let ?now = "k' * v_period r"
  have w: "time_window ?now (v_period r) = k'"
    using assms(2) by (simp add: time_window_def)
  have "code_matches hm skew (totp_code hm hash (v_secret r) (v_digits r) k) r ?now"
    unfolding code_matches_time_based [OF assms(1)] w k(2) by (intro exI [of _ k']) simp
  with k(1) w show ?thesis by metis
qed

lemma sample_far_code:
  "totp_code sample_hmac ''SHA1'' ''JBSWY3DPEHPK3PXP'' 6 1000000 = ''000016''"
  by (simp add: totp_code_def sample_hmac_def digit_char_def decimal_numeral)

text \<open>
  Claim C7 as stated fails: at time 10 (window 0 of a 30 second period) the validator
  accepts, without and with skew tolerance, the code derived for window 1000000.
\<close>

theorem totp_far_window_counterexample:
  "2 \<le> \<bar>1000000 - time_window 10 (v_period pending_row)\<bar> \<and>
   isCodeValid sample_hmac False 10 pending_db
     (totp_code sample_hmac ''SHA1'' (v_secret pending_row) (v_digits pending_row) 1000000)
     twoFAVerifyVerificationType ''user-42'' \<and>
   isCodeValid sample_hmac True 10 pending_db
     (totp_code sample_hmac ''SHA1'' (v_secret pending_row) (v_digits pending_row) 1000000)
     twoFAVerifyVerificationType ''user-42''"
proof -
  have p: "v_secret pending_row = ''JBSWY3DPEHPK3PXP''" "v_digits pending_row = 6"
    "v_period pending_row = 30" "v_algorithm pending_row = Time_based ''SHA1''"
    "v_expiresAt pending_row = None"
    by (simp_all add: pending_row_def)
  have w: "time_window 10 30 = 0" by (simp add: time_window_def)
  have m: "code_matches sample_hmac skew ''000016'' pending_row 10" for skew
    unfolding code_matches_time_based [OF p(4)] p w
    by (intro exI [of _ 0]) (simp add: sample_code)
  then have "isCodeValid sample_hmac skew 10 pending_db ''000016'' twoFAVerifyVerificationType ''user-42''"
    for skew
    by (simp add: isCodeValid_def sample_pending isValid_no_expiry [OF p(5)])
  then show ?thesis by (simp add: p w sample_far_code)
qed

theorem totp_validation_windows_witness:
  "v_algorithm pending_row = Time_based ''SHA1'' \<and>
   v_expiresAt pending_row = None \<and>
   isValid sample_hmac True ''000016'' (Some pending_row) 10 \<and>
   isValid sample_hmac True ''007935'' (Some pending_row) 10 \<and>
   (\<exists>k. \<bar>k - time_window 10 (v_period pending_row)\<bar> \<le> 1 \<and>
        ''007935'' = totp_code sample_hmac ''SHA1'' (v_secret pending_row) (v_digits pending_row) k)"
proof -
  have a: "v_algorithm pending_row = Time_based ''SHA1''" and e: "v_expiresAt pending_row = None"
    by (simp_all add: pending_row_def)
  note t = totp_validation_windows [OF a, of sample_hmac True 10]
  have c0: "totp_code sample_hmac ''SHA1'' (v_secret pending_row) (v_digits pending_row)
              (time_window 10 (v_period pending_row)) = ''000016''"
    by (simp add: pending_row_def time_window_def sample_code)
  have c1: "totp_code sample_hmac ''SHA1'' (v_secret pending_row) (v_digits pending_row)
              (time_window 10 (v_period pending_row) + 1) = ''007935''"
    by (simp add: pending_row_def time_window_def totp_code_def sample_hmac_def digit_char_def
        decimal_numeral)
  from t c0 have m0: "code_matches sample_hmac True ''000016'' pending_row 10" by metis
  from t c1 have m1: "code_matches sample_hmac True ''007935'' pending_row 10" by metis
  from t e m0 m1 have v: "isValid sample_hmac True ''000016'' (Some pending_row) 10"
    "isValid sample_hmac True ''007935'' (Some pending_row) 10"
    by blast+
  from t m1 have "\<exists>k. \<bar>k - time_window 10 (v_period pending_row)\<bar> \<le> 1 \<and>
        ''007935'' = totp_code sample_hmac ''SHA1'' (v_secret pending_row) (v_digits pending_row) k"
    by (metis (full_types))
  with a e v show ?thesis by blast
qed

subsection \<open>The change-email verification\<close>


lemma change_email_action_db:
  assumes "r_userId req = Some userId"
    and "read (r_formData req) = Some ctx"
    and "parseWithZod ctx
           (superRefine (refine_email (users d)) (ChangeEmailSchema EmailSchema (sc_payload ctx)))
         = Success email"
  shows "snd (change_email_action read EmailSchema req g new_id now sent d)
           = snd (prepareVerification 600 ''change-email'' userId g new_id now d)"
  using assms
  by (simp add: change_email_action_def Let_def split: prod.splits email_result.splits)

lemma prepareVerification_unique:
  "unique_target_type (verifications d) \<Longrightarrow>
   unique_target_type (verifications (snd (prepareVerification per ty tg g new_id now d)))"
  by (simp add: prepareVerification_def Let_def upsert_unique verificationData_def)

text \<open>
  The change-email action writes only when the submission has the status "success": a
  reply with the issues (400) or for a form-control intent (200) and a thrown value leave
  the database as it was.
\<close>

lemma change_email_action_no_success:
  assumes "r_userId req = Some userId" "read (r_formData req) = Some ctx"
    and "\<And>email. parseWithZod ctx
           (superRefine (refine_email (users d)) (ChangeEmailSchema EmailSchema (sc_payload ctx)))
         \<noteq> Success email"
  shows "snd (change_email_action read EmailSchema req g new_id now sent d) = d"
  using assms
  by (simp add: change_email_action_def split: submission.splits)

lemma change_email_action_unique:
  "unique_target_type (verifications (snd (change_email_action read EmailSchema req g new_id now sent d)))"
  if "unique_target_type (verifications d)"
proof (cases "r_userId req")
  case None
  with that show ?thesis by (simp add: change_email_action_def)
next
  case user: (Some userId)
  show ?thesis
  proof (cases "read (r_formData req)")
    case None
    with user that show ?thesis by (simp add: change_email_action_def)
  next
    case form: (Some ctx)
    show ?thesis
    proof (cases "\<exists>email. parseWithZod ctx
           (superRefine (refine_email (users d)) (ChangeEmailSchema EmailSchema (sc_payload ctx)))
         = Success email")
      case True
      then obtain email where e: "parseWithZod ctx
           (superRefine (refine_email (users d)) (ChangeEmailSchema EmailSchema (sc_payload ctx)))
         = Success email" ..
      from that show ?thesis
        unfolding change_email_action_db [where read = read, OF user form e]
        by (rule prepareVerification_unique)
    next
      case False
      then have "snd (change_email_action read EmailSchema req g new_id now sent d) = d"
        by (intro change_email_action_no_success [where read = read, OF user form]) blast
      with that show ?thesis by simp
    qed
  qed
qed














end
